theory Spec2Isabelle
  imports Main
begin

section \<open>SeaBuddy backend: the sync route over an explicit store\<close>

text \<open>
  The development embeds \<^verbatim>\<open>POST /api/sync\<close> and \<^verbatim>\<open>GET /api/sync/status\<close> of
  \<^verbatim>\<open>routes/sync.routes.ts\<close> together with the tables of \<^verbatim>\<open>db/schema.ts\<close> they touch.
  The database is an explicit store that every handler takes and returns; a table is the
  list of its rows in storage order. A statement that throws is a value of
  \<open>sync_error\<close>, and a handler that throws returns the error with the store as the
  database is left, since the route opens no transaction.

  Conventions of the model.
  \<^item> A timestamp is a number of milliseconds since the epoch. All clock readings of one
    request (\<^verbatim>\<open>new Date()\<close> and the database's \<^verbatim>\<open>now()\<close>) are the one instant \<open>now\<close>
    the handler is given.
  \<^item> A pushed change is a JSON object. It is modelled as a record with one optional field
    per column of the three pushed tables (\<open>None\<close>: the key is absent); a present
    field holds a value other than \<^verbatim>\<open>null\<close>, of the column's type, and every change
    carries an \<^verbatim>\<open>id\<close>. A timestamp of a change is a date-time string, given by the
    instant it denotes, within the range of a JavaScript \<^verbatim>\<open>Date\<close>.
    Keys that name no column of the target table are dropped by the query builder, as
    the per-table functions below do.
  \<^item> The timestamp columns are in date mode: the query builder encodes their values
    with \<^verbatim>\<open>toISOString()\<close>, which a \<^verbatim>\<open>Date\<close> has and a string has not. The route
    spreads a change into \<^verbatim>\<open>.values(...)\<close> and \<^verbatim>\<open>.set(...)\<close> as it arrives (the other
    routes write \<^verbatim>\<open>new Date(clientCreatedAt)\<close>), so a statement whose object still holds
    a date-time string throws a \<^verbatim>\<open>TypeError\<close> before anything reaches the database.
  \<^item> Values are otherwise well-formed for their columns (a uuid is a uuid, a string fits
    the column's width) and the caller's tenant and user exist, so the database rejects
    a statement only for a missing \<^verbatim>\<open>notNull()\<close> column or a repeated primary key.
  \<^item> Query conditions follow SQL: a comparison with \<^verbatim>\<open>NULL\<close> is unknown, and a row is
    selected only where the condition is true.
\<close>

subsection \<open>Values\<close>

type_synonym uuid = string
type_synonym timestamp = int

text \<open>A JavaScript \<^verbatim>\<open>Date\<close>: \<open>None\<close> is the invalid date.\<close>

type_synonym jsdate = "timestamp option"

text \<open>
  \<^verbatim>\<open>a || b\<close> on the optional timestamps of a change: an absent key is falsy, a present
  one is a date-time string and truthy.
\<close>

definition or_else :: "'a option \<Rightarrow> 'a option \<Rightarrow> 'a option" where
  "or_else a b = (case a of Some x \<Rightarrow> Some x | None \<Rightarrow> b)"

text \<open>\<^verbatim>\<open>new Date(v)\<close>: \<^verbatim>\<open>undefined\<close> gives the invalid date.\<close>

definition new_Date :: "timestamp option \<Rightarrow> jsdate" where
  "new_Date v = v"

text \<open>\<^verbatim>\<open>d1 > d2\<close> on dates compares the time values; with an invalid date it is false.\<close>

definition date_gt :: "jsdate \<Rightarrow> jsdate \<Rightarrow> bool" where
  "date_gt d1 d2 = (case d1 of None \<Rightarrow> False
                    | Some x \<Rightarrow> (case d2 of None \<Rightarrow> False | Some y \<Rightarrow> y < x))"

subsection \<open>SQL conditions\<close>

text \<open>
  The operators of the query builder render SQL: \<^verbatim>\<open>eq(a, b)\<close> is \<^verbatim>\<open>a = b\<close>,
  \<^verbatim>\<open>gt(a, b)\<close> is \<^verbatim>\<open>a > b\<close>, \<^verbatim>\<open>isNull(a)\<close> is \<^verbatim>\<open>a IS NULL\<close>. A condition has three
  values; \<open>None\<close> is unknown. An operand is \<open>None\<close> when it is \<^verbatim>\<open>NULL\<close>.
\<close>

type_synonym sqlbool = "bool option"

definition sql_eq :: "'a option \<Rightarrow> 'a option \<Rightarrow> sqlbool" where
  "sql_eq a b = (case a of None \<Rightarrow> None
                 | Some x \<Rightarrow> (case b of None \<Rightarrow> None | Some y \<Rightarrow> Some (x = y)))"

definition sql_gt :: "timestamp option \<Rightarrow> timestamp option \<Rightarrow> sqlbool" where
  "sql_gt a b = (case a of None \<Rightarrow> None
                 | Some x \<Rightarrow> (case b of None \<Rightarrow> None | Some y \<Rightarrow> Some (y < x)))"

definition isNull :: "'a option \<Rightarrow> sqlbool" where
  "isNull a = Some (a = None)"

fun sql_and2 :: "sqlbool \<Rightarrow> sqlbool \<Rightarrow> sqlbool" where
  "sql_and2 (Some False) _ = Some False"
| "sql_and2 _ (Some False) = Some False"
| "sql_and2 (Some True) (Some True) = Some True"
| "sql_and2 _ _ = None"

fun sql_or2 :: "sqlbool \<Rightarrow> sqlbool \<Rightarrow> sqlbool" where
  "sql_or2 (Some True) _ = Some True"
| "sql_or2 _ (Some True) = Some True"
| "sql_or2 (Some False) (Some False) = Some False"
| "sql_or2 _ _ = None"

definition sql_and :: "sqlbool list \<Rightarrow> sqlbool" where
  "sql_and cs = foldr sql_and2 cs (Some True)"

definition sql_or :: "sqlbool list \<Rightarrow> sqlbool" where
  "sql_or cs = foldr sql_or2 cs (Some False)"

text \<open>A \<^verbatim>\<open>WHERE\<close> clause keeps the rows whose condition is true.\<close>

definition holds :: "sqlbool \<Rightarrow> bool" where
  "holds c = (c = Some True)"

definition findFirst :: "('r \<Rightarrow> sqlbool) \<Rightarrow> 'r list \<Rightarrow> 'r option" where
  "findFirst w rows = find (\<lambda>r. holds (w r)) rows"

definition findMany :: "('r \<Rightarrow> sqlbool) \<Rightarrow> 'r list \<Rightarrow> 'r list" where
  "findMany w rows = filter (\<lambda>r. holds (w r)) rows"

text \<open>\<^verbatim>\<open>db.update(t).set(v).where(w)\<close>: every selected row is rewritten.\<close>

definition update_where :: "('r \<Rightarrow> 'r) \<Rightarrow> ('r \<Rightarrow> sqlbool) \<Rightarrow> 'r list \<Rightarrow> 'r list" where
  "update_where f w rows = map (\<lambda>r. if holds (w r) then f r else r) rows"

subsection \<open>Tables of \<^verbatim>\<open>db/schema.ts\<close>\<close>

text \<open>The sync columns shared by \<^verbatim>\<open>mood_logs\<close>, \<^verbatim>\<open>journal_entries\<close> and \<^verbatim>\<open>check_ins\<close>.\<close>

record envelope =
  row_id :: uuid
  tenantId :: uuid
  userId :: uuid
  clientCreatedAt :: timestamp
  createdAt :: timestamp
  updatedAt :: timestamp
  syncedAt :: "timestamp option"
  isDeleted :: bool

record mood_log = envelope +
  mood :: string
  intensity :: "int option"
  log_notes :: "string option"

record journal_entry = envelope +
  title :: "string option"
  content :: string
  entry_mood :: "string option"
  isPrivate :: bool

record check_in = envelope +
  scheduledFor :: timestamp
  completedAt :: "timestamp option"
  checkin_mood :: "string option"
  responses :: "string option"
  needsAttention :: bool
  reviewedBy :: "uuid option"
  reviewedAt :: "timestamp option"
  reviewNotes :: "string option"

text \<open>\<^verbatim>\<open>resources\<close>: \<open>res_tenantId = None\<close> is the global resource (\<^verbatim>\<open>tenant_id\<close> is \<^verbatim>\<open>NULL\<close>).\<close>

record resource =
  res_id :: uuid
  res_tenantId :: "uuid option"
  res_title :: string
  res_type :: string
  res_category :: "string option"
  res_tags :: "string list option"
  offlineAvailable :: bool
  isPublished :: bool
  res_createdAt :: timestamp
  res_updatedAt :: timestamp

text \<open>
  \<^verbatim>\<open>sync_metadata\<close>. Its generated \<^verbatim>\<open>id\<close> is not a field: it is unique, so it only
  identifies the row it was read from.
\<close>

record sync_metadata =
  sm_tenantId :: uuid
  sm_userId :: uuid
  sm_deviceId :: string
  sm_tableName :: string
  lastSyncedAt :: timestamp
  sm_createdAt :: timestamp
  sm_updatedAt :: timestamp

record store =
  moodLogs :: "mood_log list"
  journalEntries :: "journal_entry list"
  checkIns :: "check_in list"
  resources :: "resource list"
  syncMetadata :: "sync_metadata list"

text \<open>
  What a statement throws: the \<^verbatim>\<open>TypeError\<close> of the query builder, or the database's
  rejection.
\<close>

datatype sync_error = TypeError string | NotNullViolation string | UniqueViolation string

subsection \<open>Pushed changes\<close>

text \<open>
  A JavaScript object with the keys of the columns; \<open>'t\<close> is what a timestamp key
  holds.
\<close>

record 't change_of =
  c_id :: uuid
  c_tenantId :: "uuid option"
  c_userId :: "uuid option"
  c_mood :: "string option"
  c_intensity :: "int option"
  c_notes :: "string option"
  c_title :: "string option"
  c_content :: "string option"
  c_isPrivate :: "bool option"
  c_scheduledFor :: "'t option"
  c_completedAt :: "'t option"
  c_responses :: "string option"
  c_needsAttention :: "bool option"
  c_reviewedBy :: "uuid option"
  c_reviewedAt :: "'t option"
  c_reviewNotes :: "string option"
  c_clientCreatedAt :: "'t option"
  c_createdAt :: "'t option"
  c_updatedAt :: "'t option"
  c_syncedAt :: "'t option"
  c_isDeleted :: "bool option"

text \<open>
  One element of \<^verbatim>\<open>changes.moodLogs\<close>, \<^verbatim>\<open>changes.journalEntries\<close> or
  \<^verbatim>\<open>changes.checkIns\<close>, as parsed from the JSON body. The request schema takes each
  as \<^verbatim>\<open>z.any()\<close>, so every column may be present. A timestamp key holds a date-time
  string.
\<close>

type_synonym change = "timestamp change_of"

text \<open>
  In the object handed to \<^verbatim>\<open>.values(...)\<close> or \<^verbatim>\<open>.set(...)\<close> a timestamp key holds
  the date-time string of the change or a \<^verbatim>\<open>Date\<close> made by the handler.
\<close>

datatype date_value = IsoString timestamp | DateObject timestamp

type_synonym values_object = "date_value change_of"

text \<open>\<^verbatim>\<open>{...log}\<close>: the keys of the change, as they arrived.\<close>

definition spread :: "change \<Rightarrow> values_object" where
  "spread log =
     \<lparr>c_id = c_id log, c_tenantId = c_tenantId log, c_userId = c_userId log,
      c_mood = c_mood log, c_intensity = c_intensity log, c_notes = c_notes log,
      c_title = c_title log, c_content = c_content log, c_isPrivate = c_isPrivate log,
      c_scheduledFor = map_option IsoString (c_scheduledFor log),
      c_completedAt = map_option IsoString (c_completedAt log),
      c_responses = c_responses log, c_needsAttention = c_needsAttention log,
      c_reviewedBy = c_reviewedBy log,
      c_reviewedAt = map_option IsoString (c_reviewedAt log),
      c_reviewNotes = c_reviewNotes log,
      c_clientCreatedAt = map_option IsoString (c_clientCreatedAt log),
      c_createdAt = map_option IsoString (c_createdAt log),
      c_updatedAt = map_option IsoString (c_updatedAt log),
      c_syncedAt = map_option IsoString (c_syncedAt log),
      c_isDeleted = c_isDeleted log\<rparr>"

text \<open>
  The encoder of a date-mode timestamp column, \<^verbatim>\<open>value.toISOString()\<close>: a key that is
  absent is not encoded, a \<^verbatim>\<open>Date\<close> is, a string throws.
\<close>

definition encodes :: "date_value option \<Rightarrow> bool" where
  "encodes v = (case v of None \<Rightarrow> True | Some (DateObject t) \<Rightarrow> True
                | Some (IsoString t) \<Rightarrow> False)"

definition type_error :: sync_error where
  "type_error = TypeError ''value.toISOString is not a function''"

definition instant :: "date_value \<Rightarrow> timestamp" where
  "instant v = (case v of IsoString t \<Rightarrow> t | DateObject t \<Rightarrow> t)"

text \<open>A column keeps its value where the object has no key for it.\<close>

definition pick :: "'a option \<Rightarrow> 'a \<Rightarrow> 'a" where
  "pick v old = (case v of Some x \<Rightarrow> x | None \<Rightarrow> old)"

definition pick_null :: "'a option \<Rightarrow> 'a option \<Rightarrow> 'a option" where
  "pick_null v old = (case v of Some x \<Rightarrow> Some x | None \<Rightarrow> old)"

subsection \<open>Statements on the three pushed tables\<close>

text \<open>
  \<^verbatim>\<open>db.insert(moodLogs).values(v)\<close>. Building the statement encodes the values of the
  timestamp columns and throws on one that does not encode. In the database each column
  takes the object's value, else its default (\<^verbatim>\<open>defaultNow()\<close>, \<^verbatim>\<open>default(false)\<close>),
  else \<^verbatim>\<open>NULL\<close>; a \<^verbatim>\<open>notNull()\<close> column left \<^verbatim>\<open>NULL\<close> and a second row with the
  primary key are rejected.
\<close>

definition insert_moodLog :: "timestamp \<Rightarrow> values_object \<Rightarrow> mood_log list \<Rightarrow> sync_error + mood_log list" where
  "insert_moodLog now v rows =
     (if \<not> list_all encodes [c_clientCreatedAt v, c_createdAt v, c_updatedAt v,
                               c_syncedAt v]
      then Inl type_error else
      case c_tenantId v of None \<Rightarrow> Inl (NotNullViolation ''tenant_id'') | Some t \<Rightarrow>
      case c_userId v of None \<Rightarrow> Inl (NotNullViolation ''user_id'') | Some u \<Rightarrow>
      case c_mood v of None \<Rightarrow> Inl (NotNullViolation ''mood'') | Some m \<Rightarrow>
      case c_clientCreatedAt v of None \<Rightarrow> Inl (NotNullViolation ''client_created_at'') | Some cca \<Rightarrow>
      if c_id v \<in> set (map row_id rows) then Inl (UniqueViolation ''mood_logs_pkey'')
      else Inr (rows @
        [\<lparr>row_id = c_id v, tenantId = t, userId = u,
          clientCreatedAt = instant cca,
          createdAt = pick (map_option instant (c_createdAt v)) now,
          updatedAt = pick (map_option instant (c_updatedAt v)) now,
          syncedAt = map_option instant (c_syncedAt v),
          isDeleted = pick (c_isDeleted v) False,
          mood = m, intensity = c_intensity v, log_notes = c_notes v\<rparr>]))"

definition insert_journalEntry ::
  "timestamp \<Rightarrow> values_object \<Rightarrow> journal_entry list \<Rightarrow> sync_error + journal_entry list" where
  "insert_journalEntry now v rows =
     (if \<not> list_all encodes [c_clientCreatedAt v, c_createdAt v, c_updatedAt v,
                               c_syncedAt v]
      then Inl type_error else
      case c_tenantId v of None \<Rightarrow> Inl (NotNullViolation ''tenant_id'') | Some t \<Rightarrow>
      case c_userId v of None \<Rightarrow> Inl (NotNullViolation ''user_id'') | Some u \<Rightarrow>
      case c_content v of None \<Rightarrow> Inl (NotNullViolation ''content'') | Some c \<Rightarrow>
      case c_clientCreatedAt v of None \<Rightarrow> Inl (NotNullViolation ''client_created_at'') | Some cca \<Rightarrow>
      if c_id v \<in> set (map row_id rows) then Inl (UniqueViolation ''journal_entries_pkey'')
      else Inr (rows @
        [\<lparr>row_id = c_id v, tenantId = t, userId = u,
          clientCreatedAt = instant cca,
          createdAt = pick (map_option instant (c_createdAt v)) now,
          updatedAt = pick (map_option instant (c_updatedAt v)) now,
          syncedAt = map_option instant (c_syncedAt v),
          isDeleted = pick (c_isDeleted v) False,
          title = c_title v, content = c, entry_mood = c_mood v,
          isPrivate = pick (c_isPrivate v) True\<rparr>]))"

definition insert_checkIn :: "timestamp \<Rightarrow> values_object \<Rightarrow> check_in list \<Rightarrow> sync_error + check_in list" where
  "insert_checkIn now v rows =
     (if \<not> list_all encodes [c_scheduledFor v, c_completedAt v, c_reviewedAt v,
                               c_clientCreatedAt v, c_createdAt v, c_updatedAt v,
                               c_syncedAt v]
      then Inl type_error else
      case c_tenantId v of None \<Rightarrow> Inl (NotNullViolation ''tenant_id'') | Some t \<Rightarrow>
      case c_userId v of None \<Rightarrow> Inl (NotNullViolation ''user_id'') | Some u \<Rightarrow>
      case c_scheduledFor v of None \<Rightarrow> Inl (NotNullViolation ''scheduled_for'') | Some sf \<Rightarrow>
      case c_clientCreatedAt v of None \<Rightarrow> Inl (NotNullViolation ''client_created_at'') | Some cca \<Rightarrow>
      if c_id v \<in> set (map row_id rows) then Inl (UniqueViolation ''check_ins_pkey'')
      else Inr (rows @
        [\<lparr>row_id = c_id v, tenantId = t, userId = u,
          clientCreatedAt = instant cca,
          createdAt = pick (map_option instant (c_createdAt v)) now,
          updatedAt = pick (map_option instant (c_updatedAt v)) now,
          syncedAt = map_option instant (c_syncedAt v),
          isDeleted = pick (c_isDeleted v) False,
          scheduledFor = instant sf, completedAt = map_option instant (c_completedAt v),
          checkin_mood = c_mood v,
          responses = c_responses v,
          needsAttention = pick (c_needsAttention v) False,
          reviewedBy = c_reviewedBy v,
          reviewedAt = map_option instant (c_reviewedAt v),
          reviewNotes = c_reviewNotes v\<rparr>]))"

text \<open>
  \<^verbatim>\<open>.set(v)\<close> of \<^verbatim>\<open>db.update\<close>, on one row: a column is assigned where the object
  has a key for it and keeps its value otherwise.
\<close>

definition set_envelope :: "values_object \<Rightarrow> 'a envelope_scheme \<Rightarrow> 'a envelope_scheme" where
  "set_envelope v r =
     r\<lparr>row_id := c_id v,
       tenantId := pick (c_tenantId v) (tenantId r),
       userId := pick (c_userId v) (userId r),
       clientCreatedAt := pick (map_option instant (c_clientCreatedAt v)) (clientCreatedAt r),
       createdAt := pick (map_option instant (c_createdAt v)) (createdAt r),
       updatedAt := pick (map_option instant (c_updatedAt v)) (updatedAt r),
       syncedAt := pick_null (map_option instant (c_syncedAt v)) (syncedAt r),
       isDeleted := pick (c_isDeleted v) (isDeleted r)\<rparr>"

definition set_moodLog :: "values_object \<Rightarrow> mood_log \<Rightarrow> mood_log" where
  "set_moodLog v r =
     (set_envelope v r)\<lparr>mood := pick (c_mood v) (mood r),
       intensity := pick_null (c_intensity v) (intensity r),
       log_notes := pick_null (c_notes v) (log_notes r)\<rparr>"

definition set_journalEntry :: "values_object \<Rightarrow> journal_entry \<Rightarrow> journal_entry" where
  "set_journalEntry v r =
     (set_envelope v r)\<lparr>title := pick_null (c_title v) (title r),
       content := pick (c_content v) (content r),
       entry_mood := pick_null (c_mood v) (entry_mood r),
       isPrivate := pick (c_isPrivate v) (isPrivate r)\<rparr>"

definition set_checkIn :: "values_object \<Rightarrow> check_in \<Rightarrow> check_in" where
  "set_checkIn v r =
     (set_envelope v r)\<lparr>scheduledFor := pick (map_option instant (c_scheduledFor v)) (scheduledFor r),
       completedAt := pick_null (map_option instant (c_completedAt v)) (completedAt r),
       checkin_mood := pick_null (c_mood v) (checkin_mood r),
       responses := pick_null (c_responses v) (responses r),
       needsAttention := pick (c_needsAttention v) (needsAttention r),
       reviewedBy := pick_null (c_reviewedBy v) (reviewedBy r),
       reviewedAt := pick_null (map_option instant (c_reviewedAt v)) (reviewedAt r),
       reviewNotes := pick_null (c_reviewNotes v) (reviewNotes r)\<rparr>"

text \<open>The condition \<^verbatim>\<open>eq(t.id, log.id)\<close> of the lookups and updates of the push.\<close>

definition id_is :: "uuid \<Rightarrow> 'a envelope_scheme \<Rightarrow> sqlbool" where
  "id_is i r = sql_eq (Some (row_id r)) (Some i)"

text \<open>
  \<^verbatim>\<open>db.update(moodLogs).set(v).where(eq(moodLogs.id, i))\<close>. Building the statement
  encodes the values of the timestamp columns, as for an insert.
\<close>

definition update_moodLog ::
  "values_object \<Rightarrow> uuid \<Rightarrow> mood_log list \<Rightarrow> sync_error + mood_log list" where
  "update_moodLog v i rows =
     (if \<not> list_all encodes [c_clientCreatedAt v, c_createdAt v, c_updatedAt v,
                               c_syncedAt v]
      then Inl type_error
      else Inr (update_where (set_moodLog v) (id_is i) rows))"

definition update_journalEntry ::
  "values_object \<Rightarrow> uuid \<Rightarrow> journal_entry list \<Rightarrow> sync_error + journal_entry list" where
  "update_journalEntry v i rows =
     (if \<not> list_all encodes [c_clientCreatedAt v, c_createdAt v, c_updatedAt v,
                               c_syncedAt v]
      then Inl type_error
      else Inr (update_where (set_journalEntry v) (id_is i) rows))"

definition update_checkIn ::
  "values_object \<Rightarrow> uuid \<Rightarrow> check_in list \<Rightarrow> sync_error + check_in list" where
  "update_checkIn v i rows =
     (if \<not> list_all encodes [c_scheduledFor v, c_completedAt v, c_reviewedAt v,
                               c_clientCreatedAt v, c_createdAt v, c_updatedAt v,
                               c_syncedAt v]
      then Inl type_error
      else Inr (update_where (set_checkIn v) (id_is i) rows))"

subsection \<open>The request\<close>

datatype role = crew | admin | psychologist

text \<open>What \<^verbatim>\<open>tenantMiddleware\<close> attaches to the request (\<^verbatim>\<open>AuthRequest\<close>).\<close>

record auth_request =
  req_tenantId :: uuid
  req_userId :: uuid
  userRole :: role

text \<open>\<^verbatim>\<open>SyncRequest\<close>, as \<^verbatim>\<open>syncRequestSchema\<close> lets it through.\<close>

record sync_changes =
  ch_moodLogs :: "change list option"
  ch_journalEntries :: "change list option"
  ch_checkIns :: "change list option"

record sync_request =
  deviceId :: string
  lastSyncAt :: "timestamp option"
  changes :: sync_changes

record server_changes =
  sc_moodLogs :: "mood_log list"
  sc_journalEntries :: "journal_entry list"
  sc_checkIns :: "check_in list"
  sc_resources :: "resource list"

record sync_response =
  success :: bool
  serverChanges :: server_changes
  conflicts :: "change list"
  resp_lastSyncAt :: timestamp

subsection \<open>Push: \<^verbatim>\<open>POST /api/sync\<close>, step 1\<close>

text \<open>
  \<^verbatim>\<open>new Date(log.updatedAt || log.clientCreatedAt)\<close> and
  \<^verbatim>\<open>new Date(existing.updatedAt)\<close>.
\<close>

definition clientDate :: "change \<Rightarrow> jsdate" where
  "clientDate log = new_Date (or_else (c_updatedAt log) (c_clientCreatedAt log))"

definition serverDate :: "'a envelope_scheme \<Rightarrow> jsdate" where
  "serverDate existing = new_Date (Some (updatedAt existing))"

text \<open>
  The body of \<^verbatim>\<open>for (const log of changes.moodLogs)\<close>. A statement that throws
  throws out of the handler: the result is the error and the store as it stands.
\<close>

definition push_moodLog ::
  "uuid \<Rightarrow> uuid \<Rightarrow> timestamp \<Rightarrow> change \<Rightarrow> store \<Rightarrow> (sync_error \<times> store) + store" where
  "push_moodLog tenant user now log s =
     (case findFirst (id_is (c_id log)) (moodLogs s) of
        Some existing \<Rightarrow>
          (if date_gt (clientDate log) (serverDate existing)
           then (case update_moodLog
                        ((spread log)\<lparr>c_tenantId := Some tenant, c_userId := Some user,
                           c_syncedAt := Some (DateObject now),
                           c_updatedAt := Some (DateObject now)\<rparr>)
                        (c_id log) (moodLogs s) of
                   Inl e \<Rightarrow> Inl (e, s)
                 | Inr rows \<Rightarrow> Inr (s\<lparr>moodLogs := rows\<rparr>))
           else Inr s)
      | None \<Rightarrow>
          (case insert_moodLog now
                  ((spread log)\<lparr>c_tenantId := Some tenant, c_userId := Some user,
                     c_syncedAt := Some (DateObject now)\<rparr>) (moodLogs s) of
             Inl e \<Rightarrow> Inl (e, s)
           | Inr rows \<Rightarrow> Inr (s\<lparr>moodLogs := rows\<rparr>)))"

definition push_journalEntry ::
  "uuid \<Rightarrow> uuid \<Rightarrow> timestamp \<Rightarrow> change \<Rightarrow> store \<Rightarrow> (sync_error \<times> store) + store" where
  "push_journalEntry tenant user now entry s =
     (case findFirst (id_is (c_id entry)) (journalEntries s) of
        Some existing \<Rightarrow>
          (if date_gt (clientDate entry) (serverDate existing)
           then (case update_journalEntry
                        ((spread entry)\<lparr>c_tenantId := Some tenant, c_userId := Some user,
                           c_syncedAt := Some (DateObject now),
                           c_updatedAt := Some (DateObject now)\<rparr>)
                        (c_id entry) (journalEntries s) of
                   Inl e \<Rightarrow> Inl (e, s)
                 | Inr rows \<Rightarrow> Inr (s\<lparr>journalEntries := rows\<rparr>))
           else Inr s)
      | None \<Rightarrow>
          (case insert_journalEntry now
                  ((spread entry)\<lparr>c_tenantId := Some tenant, c_userId := Some user,
                     c_syncedAt := Some (DateObject now)\<rparr>) (journalEntries s) of
             Inl e \<Rightarrow> Inl (e, s)
           | Inr rows \<Rightarrow> Inr (s\<lparr>journalEntries := rows\<rparr>)))"

definition push_checkIn ::
  "uuid \<Rightarrow> uuid \<Rightarrow> timestamp \<Rightarrow> change \<Rightarrow> store \<Rightarrow> (sync_error \<times> store) + store" where
  "push_checkIn tenant user now checkIn s =
     (case findFirst (id_is (c_id checkIn)) (checkIns s) of
        Some existing \<Rightarrow>
          (if date_gt (clientDate checkIn) (serverDate existing)
           then (case update_checkIn
                        ((spread checkIn)\<lparr>c_tenantId := Some tenant, c_userId := Some user,
                           c_syncedAt := Some (DateObject now),
                           c_updatedAt := Some (DateObject now)\<rparr>)
                        (c_id checkIn) (checkIns s) of
                   Inl e \<Rightarrow> Inl (e, s)
                 | Inr rows \<Rightarrow> Inr (s\<lparr>checkIns := rows\<rparr>))
           else Inr s)
      | None \<Rightarrow>
          (case insert_checkIn now
                  ((spread checkIn)\<lparr>c_tenantId := Some tenant, c_userId := Some user,
                     c_syncedAt := Some (DateObject now)\<rparr>) (checkIns s) of
             Inl e \<Rightarrow> Inl (e, s)
           | Inr rows \<Rightarrow> Inr (s\<lparr>checkIns := rows\<rparr>)))"

text \<open>A \<^verbatim>\<open>for ... of\<close> loop over the changes, in order; a throw leaves the loop.\<close>

fun for_each ::
  "('c \<Rightarrow> store \<Rightarrow> (sync_error \<times> store) + store) \<Rightarrow> 'c list \<Rightarrow> store \<Rightarrow> (sync_error \<times> store) + store" where
  "for_each body [] s = Inr s"
| "for_each body (c # cs) s =
     (case body c s of Inl e \<Rightarrow> Inl e | Inr s' \<Rightarrow> for_each body cs s')"

text \<open>\<^verbatim>\<open>if (changes.x && changes.x.length > 0) { for (...) ... }\<close>\<close>

definition push_all ::
  "('c \<Rightarrow> store \<Rightarrow> (sync_error \<times> store) + store) \<Rightarrow> 'c list option \<Rightarrow> store \<Rightarrow> (sync_error \<times> store) + store" where
  "push_all body xs s =
     (case xs of None \<Rightarrow> Inr s
      | Some cs \<Rightarrow> if 0 < length cs then for_each body cs s else Inr s)"

text \<open>The changes of one optional array, in order.\<close>

definition pushed :: "change list option \<Rightarrow> change list" where
  "pushed xs = (case xs of None \<Rightarrow> [] | Some cs \<Rightarrow> cs)"

definition push ::
  "uuid \<Rightarrow> uuid \<Rightarrow> timestamp \<Rightarrow> sync_changes \<Rightarrow> store \<Rightarrow> (sync_error \<times> store) + store" where
  "push tenant user now ch s =
     (case push_all (push_moodLog tenant user now) (ch_moodLogs ch) s of
        Inl e \<Rightarrow> Inl e
      | Inr s1 \<Rightarrow>
          (case push_all (push_journalEntry tenant user now) (ch_journalEntries ch) s1 of
             Inl e \<Rightarrow> Inl e
           | Inr s2 \<Rightarrow> push_all (push_checkIn tenant user now) (ch_checkIns ch) s2))"

text \<open>The store a push leaves behind, whether it threw or not.\<close>

definition store_after :: "(sync_error \<times> store) + store \<Rightarrow> store" where
  "store_after r = (case r of Inl (e, s) \<Rightarrow> s | Inr s \<Rightarrow> s)"

text \<open>
  A change is settled in a table when its id finds a row there and its client date is
  not later than that row's \<^verbatim>\<open>updatedAt\<close>: pushing it again is discarded.
\<close>

definition settled :: "change \<Rightarrow> 'a envelope_scheme list \<Rightarrow> bool" where
  "settled log rows =
     (case findFirst (id_is (c_id log)) rows of
        None \<Rightarrow> False
      | Some r \<Rightarrow> \<not> date_gt (clientDate log) (serverDate r))"

subsection \<open>Pull: step 2\<close>

definition syncCutoffDate :: "timestamp option \<Rightarrow> timestamp" where
  "syncCutoffDate since = (case since of Some t \<Rightarrow> t | None \<Rightarrow> 0)"

definition own_rows_since :: "uuid \<Rightarrow> uuid \<Rightarrow> timestamp \<Rightarrow> 'a envelope_scheme \<Rightarrow> sqlbool" where
  "own_rows_since tenant user cutoff r =
     sql_and [sql_eq (Some (tenantId r)) (Some tenant),
              sql_eq (Some (userId r)) (Some user),
              sql_gt (Some (updatedAt r)) (Some cutoff)]"

text \<open>
  The condition of the resources query. Its second disjunct is
  \<^verbatim>\<open>eq(resources.tenantId, null as any)\<close>: the comparison \<^verbatim>\<open>tenant_id = NULL\<close>.
\<close>

definition resources_since :: "uuid \<Rightarrow> timestamp \<Rightarrow> resource \<Rightarrow> sqlbool" where
  "resources_since tenant cutoff r =
     sql_and [sql_or [sql_eq (res_tenantId r) (Some tenant),
                      sql_eq (res_tenantId r) None],
              sql_eq (Some (isPublished r)) (Some True),
              sql_gt (Some (res_updatedAt r)) (Some cutoff)]"

definition pull :: "uuid \<Rightarrow> uuid \<Rightarrow> timestamp option \<Rightarrow> store \<Rightarrow> server_changes" where
  "pull tenant user since s =
     (let cutoff = syncCutoffDate since
      in \<lparr>sc_moodLogs = findMany (own_rows_since tenant user cutoff) (moodLogs s),
          sc_journalEntries = findMany (own_rows_since tenant user cutoff) (journalEntries s),
          sc_checkIns = findMany (own_rows_since tenant user cutoff) (checkIns s),
          sc_resources = findMany (resources_since tenant cutoff) (resources s)\<rparr>)"

subsection \<open>Sync metadata: step 3\<close>

definition cursor_is :: "uuid \<Rightarrow> uuid \<Rightarrow> string \<Rightarrow> string \<Rightarrow> sync_metadata \<Rightarrow> sqlbool" where
  "cursor_is tenant user device tableName r =
     sql_and [sql_eq (Some (sm_tenantId r)) (Some tenant),
              sql_eq (Some (sm_userId r)) (Some user),
              sql_eq (Some (sm_deviceId r)) (Some device),
              sql_eq (Some (sm_tableName r)) (Some tableName)]"

text \<open>
  \<^verbatim>\<open>.where(eq(syncMetadata.id, existing.id))\<close> rewrites the row that \<^verbatim>\<open>findFirst\<close>
  returned: the first one that satisfies the condition.
\<close>

fun update_first :: "('r \<Rightarrow> 'r) \<Rightarrow> ('r \<Rightarrow> sqlbool) \<Rightarrow> 'r list \<Rightarrow> 'r list" where
  "update_first f w [] = []"
| "update_first f w (r # rs) = (if holds (w r) then f r # rs else r # update_first f w rs)"

definition upsert_metadata ::
  "uuid \<Rightarrow> uuid \<Rightarrow> string \<Rightarrow> timestamp \<Rightarrow> string \<Rightarrow> sync_metadata list \<Rightarrow> sync_metadata list" where
  "upsert_metadata tenant user device now tableName rows =
     (case findFirst (cursor_is tenant user device tableName) rows of
        Some existing \<Rightarrow>
          update_first (\<lambda>r. r\<lparr>lastSyncedAt := now, sm_updatedAt := now\<rparr>)
            (cursor_is tenant user device tableName) rows
      | None \<Rightarrow>
          rows @ [\<lparr>sm_tenantId = tenant, sm_userId = user, sm_deviceId = device,
                   sm_tableName = tableName, lastSyncedAt = now,
                   sm_createdAt = now, sm_updatedAt = now\<rparr>])"

definition tables :: "string list" where
  "tables = [''mood_logs'', ''journal_entries'', ''check_ins'', ''resources'']"

definition update_sync_metadata :: "uuid \<Rightarrow> uuid \<Rightarrow> string \<Rightarrow> timestamp \<Rightarrow> store \<Rightarrow> store" where
  "update_sync_metadata tenant user device now s =
     s\<lparr>syncMetadata := fold (upsert_metadata tenant user device now) tables (syncMetadata s)\<rparr>"

subsection \<open>The handlers\<close>

text \<open>
  \<^verbatim>\<open>router.post('/')\<close>. \<open>Inr\<close> is the JSON response with the store after the call;
  \<open>Inl\<close> is the error that \<^verbatim>\<open>asyncHandler\<close> passes to \<^verbatim>\<open>errorHandler\<close> (a 500
  response), with the store the aborted call leaves behind.
\<close>

definition sync_post ::
  "store \<Rightarrow> auth_request \<Rightarrow> timestamp \<Rightarrow> sync_request \<Rightarrow> (sync_error \<times> store) + (sync_response \<times> store)" where
  "sync_post s req now body =
     (let tenant = req_tenantId req; user = req_userId req
      in case push tenant user now (changes body) s of
           Inl e \<Rightarrow> Inl e
         | Inr s1 \<Rightarrow>
             (let pulled = pull tenant user (lastSyncAt body) s1;
                  s2 = update_sync_metadata tenant user (deviceId body) now s1
              in Inr (\<lparr>success = True, serverChanges = pulled, conflicts = [],
                       resp_lastSyncAt = now\<rparr>, s2)))"

text \<open>
  \<^verbatim>\<open>router.get('/status')\<close>. The argument is \<^verbatim>\<open>req.query.deviceId\<close>; \<^verbatim>\<open>!deviceId\<close> holds
  for a missing and for an empty parameter.
\<close>

record status_response =
  http_status :: nat
  st_success :: bool
  st_error :: "string option"
  st_data :: "sync_metadata list option"

definition sync_status :: "store \<Rightarrow> auth_request \<Rightarrow> string option \<Rightarrow> status_response" where
  "sync_status s req deviceId_param =
     (case deviceId_param of
        None \<Rightarrow> \<lparr>http_status = 400, st_success = False,
                  st_error = Some ''deviceId is required'', st_data = None\<rparr>
      | Some d \<Rightarrow>
          if d = [] then \<lparr>http_status = 400, st_success = False,
                           st_error = Some ''deviceId is required'', st_data = None\<rparr>
          else \<lparr>http_status = 200, st_success = True, st_error = None,
                 st_data = Some (findMany
                   (\<lambda>r. sql_and [sql_eq (Some (sm_tenantId r)) (Some (req_tenantId req)),
                                 sql_eq (Some (sm_userId r)) (Some (req_userId req)),
                                 sql_eq (Some (sm_deviceId r)) (Some d)])
                   (syncMetadata s))\<rparr>)"

subsection \<open>Example data\<close>

text \<open>Short names stand for uuids, small numbers for instants.\<close>

definition no_fields :: "uuid \<Rightarrow> change" where
  "no_fields i =
     \<lparr>c_id = i, c_tenantId = None, c_userId = None, c_mood = None, c_intensity = None,
      c_notes = None, c_title = None, c_content = None, c_isPrivate = None,
      c_scheduledFor = None, c_completedAt = None, c_responses = None,
      c_needsAttention = None, c_reviewedBy = None, c_reviewedAt = None,
      c_reviewNotes = None, c_clientCreatedAt = None, c_createdAt = None,
      c_updatedAt = None, c_syncedAt = None, c_isDeleted = None\<rparr>"

definition empty_store :: store where
  "empty_store = \<lparr>moodLogs = [], journalEntries = [], checkIns = [], resources = [],
                   syncMetadata = []\<rparr>"

text \<open>A mood log of user \<open>U1\<close> of tenant \<open>T1\<close>, last updated at 100.\<close>

definition row_M :: mood_log where
  "row_M = \<lparr>row_id = ''M'', tenantId = ''T1'', userId = ''U1'', clientCreatedAt = 10,
             createdAt = 20, updatedAt = 100, syncedAt = Some 20, isDeleted = False,
             mood = ''good'', intensity = None, log_notes = None\<rparr>"


text \<open>A journal entry and a check-in of the same user, last updated at 100.\<close>

definition row_J :: journal_entry where
  "row_J = \<lparr>row_id = ''J'', tenantId = ''T1'', userId = ''U1'', clientCreatedAt = 10,
             createdAt = 20, updatedAt = 100, syncedAt = Some 20, isDeleted = False,
             title = None, content = ''calm sea'', entry_mood = None, isPrivate = True\<rparr>"

definition row_C :: check_in where
  "row_C = \<lparr>row_id = ''C'', tenantId = ''T1'', userId = ''U1'', clientCreatedAt = 10,
             createdAt = 20, updatedAt = 100, syncedAt = Some 20, isDeleted = False,
             scheduledFor = 50, completedAt = None, checkin_mood = None, responses = None,
             needsAttention = False, reviewedBy = None, reviewedAt = None,
             reviewNotes = None\<rparr>"

definition store_MJC :: store where
  "store_MJC = \<lparr>moodLogs = [row_M], journalEntries = [row_J], checkIns = [row_C],
                 resources = [], syncMetadata = []\<rparr>"

text \<open>A published global resource.\<close>

definition resource_R :: resource where
  "resource_R = \<lparr>res_id = ''R'', res_tenantId = None, res_title = ''Breathing'',
                  res_type = ''exercise'', res_category = None, res_tags = None,
                  offlineAvailable = True, isPublished = True, res_createdAt = 5,
                  res_updatedAt = 5\<rparr>"

definition crew_T1 :: auth_request where
  "crew_T1 = \<lparr>req_tenantId = ''T1'', req_userId = ''U1'', userRole = crew\<rparr>"

section \<open>Properties\<close>

subsection \<open>Auxiliary facts\<close>

lemma holds_id_is [simp]: "holds (id_is i r) = (row_id r = i)"
  by (simp add: holds_def id_is_def sql_eq_def)

lemma findFirst_Nil [simp]: "findFirst w [] = None"
  by (simp add: findFirst_def)

lemma findFirst_Cons [simp]:
  "findFirst w (r # rs) = (if holds (w r) then Some r else findFirst w rs)"
  by (simp add: findFirst_def)

lemma findFirst_id_Some: "findFirst (id_is i) rows = Some r \<Longrightarrow> row_id r = i"
  by (induction rows) (auto split: if_splits)

lemma findFirst_update_same:
  assumes "\<And>r. row_id (f r) = i"
  shows "findFirst (id_is i) (update_where f (id_is i) rows) = map_option f (findFirst (id_is i) rows)"
  by (induction rows) (simp_all add: update_where_def assms)

lemma findFirst_update_other:
  assumes "\<And>r. row_id (f r) = i" and "j \<noteq> i"
  shows "findFirst (id_is j) (update_where f (id_is i) rows) = findFirst (id_is j) rows"
  using assms(2) by (induction rows) (auto simp add: update_where_def assms(1))

lemma for_each_append:
  "for_each body (cs1 @ cs2) s =
     (case for_each body cs1 s of Inl e \<Rightarrow> Inl e | Inr s1 \<Rightarrow> for_each body cs2 s1)"
  by (induction cs1 arbitrary: s) (simp_all split: sum.splits)

lemma push_all_for_each: "push_all body xs s = for_each body (pushed xs) s"
  by (cases xs) (auto simp add: push_all_def pushed_def)

lemma encodes_simps [simp]:
  "encodes None" "encodes (Some (DateObject t))" "\<not> encodes (Some (IsoString t))"
  "encodes (map_option IsoString v) = (v = None)"
  by (simp_all add: encodes_def split: option.splits)

lemma instant_simps [simp]: "instant (DateObject t) = t" "instant (IsoString t) = t"
  by (simp_all add: instant_def)

lemma spread_simps [simp]:
  "c_id (spread log) = c_id log"
  "c_tenantId (spread log) = c_tenantId log"
  "c_userId (spread log) = c_userId log"
  "c_mood (spread log) = c_mood log"
  "c_intensity (spread log) = c_intensity log"
  "c_notes (spread log) = c_notes log"
  "c_title (spread log) = c_title log"
  "c_content (spread log) = c_content log"
  "c_isPrivate (spread log) = c_isPrivate log"
  "c_responses (spread log) = c_responses log"
  "c_needsAttention (spread log) = c_needsAttention log"
  "c_reviewedBy (spread log) = c_reviewedBy log"
  "c_reviewNotes (spread log) = c_reviewNotes log"
  "c_isDeleted (spread log) = c_isDeleted log"
  "c_scheduledFor (spread log) = map_option IsoString (c_scheduledFor log)"
  "c_completedAt (spread log) = map_option IsoString (c_completedAt log)"
  "c_reviewedAt (spread log) = map_option IsoString (c_reviewedAt log)"
  "c_clientCreatedAt (spread log) = map_option IsoString (c_clientCreatedAt log)"
  "c_createdAt (spread log) = map_option IsoString (c_createdAt log)"
  "c_updatedAt (spread log) = map_option IsoString (c_updatedAt log)"
  "c_syncedAt (spread log) = map_option IsoString (c_syncedAt log)"
  by (simp_all add: spread_def)

lemma store_after_simps [simp]: "store_after (Inl (e, s)) = s" "store_after (Inr s) = s"
  by (simp_all add: store_after_def)

lemmas example_defs = no_fields_def empty_store_def row_M_def row_J_def row_C_def
  store_MJC_def crew_T1_def

lemmas date_defs = clientDate_def serverDate_def new_Date_def or_else_def date_gt_def

lemmas eval_defs = push_moodLog_def insert_moodLog_def update_moodLog_def
  push_journalEntry_def insert_journalEntry_def update_journalEntry_def
  push_checkIn_def insert_checkIn_def update_checkIn_def spread_def type_error_def
  example_defs date_defs update_where_def set_moodLog_def set_journalEntry_def
  set_checkIn_def set_envelope_def pick_def pick_null_def

text \<open>The push of one change to \<^verbatim>\<open>moodLogs\<close>.\<close>

lemma set_moodLog_envelope [simp]:
  "row_id (set_moodLog v r) = c_id v"
  "tenantId (set_moodLog v r) = pick (c_tenantId v) (tenantId r)"
  "userId (set_moodLog v r) = pick (c_userId v) (userId r)"
  "clientCreatedAt (set_moodLog v r)
     = pick (map_option instant (c_clientCreatedAt v)) (clientCreatedAt r)"
  "createdAt (set_moodLog v r) = pick (map_option instant (c_createdAt v)) (createdAt r)"
  "updatedAt (set_moodLog v r) = pick (map_option instant (c_updatedAt v)) (updatedAt r)"
  by (simp_all add: set_moodLog_def set_envelope_def)

lemma push_moodLog_stale:
  assumes "findFirst (id_is (c_id log)) (moodLogs s) = Some existing"
      and "\<not> date_gt (clientDate log) (serverDate existing)"
  shows "push_moodLog tenant user now log s = Inr s"
  using assms by (simp add: push_moodLog_def)

text \<open>No insert of the push succeeds: a change with no row throws.\<close>

lemma push_moodLog_new_throws:
  assumes "findFirst (id_is (c_id log)) (moodLogs s) = None"
  shows "\<exists>e. push_moodLog tenant user now log s = Inl (e, s)"
  using assms
  by (cases "c_clientCreatedAt log")
     (simp_all add: push_moodLog_def insert_moodLog_def spread_def split: option.splits)

lemma push_moodLog_applied:
  assumes "push_moodLog tenant user now log s = Inr s'"
  shows "(\<exists>existing. findFirst (id_is (c_id log)) (moodLogs s) = Some existing)"
  using assms push_moodLog_new_throws [of log s tenant user now]
  by (cases "findFirst (id_is (c_id log)) (moodLogs s)") auto

text \<open>What a change throws does not depend on the clock, and leaves the store.\<close>

lemma push_moodLog_throws_again:
  assumes "push_moodLog tenant user now log s = Inl (e, s')"
  shows "s' = s \<and> push_moodLog tenant user now' log s = Inl (e, s)"
  using assms
  by (auto simp add: push_moodLog_def insert_moodLog_def update_moodLog_def spread_def
        split: option.splits if_splits sum.splits)

lemma push_moodLog_frame:
  "journalEntries (store_after (push_moodLog tenant user now log s)) = journalEntries s
   \<and> checkIns (store_after (push_moodLog tenant user now log s)) = checkIns s"
  by (auto simp add: push_moodLog_def store_after_def split: option.splits if_splits sum.splits)

lemma for_each_moodLog_frame:
  "journalEntries (store_after (for_each (push_moodLog tenant user now) logs s)) = journalEntries s
   \<and> checkIns (store_after (for_each (push_moodLog tenant user now) logs s)) = checkIns s"
proof (induction logs arbitrary: s)
  case Nil
  then show ?case by simp
next
  case (Cons log logs)
  show ?case
  proof (cases "push_moodLog tenant user now log s")
    case (Inl err)
    with push_moodLog_frame [of tenant user now log s] show ?thesis
      by simp
  next
    case (Inr s1)
    with push_moodLog_frame [of tenant user now log s] Cons.IH [of s1] show ?thesis
      by simp
  qed
qed

lemma push_moodLog_settles:
  assumes "push_moodLog tenant user now log s = Inr s'"
      and "\<not> date_gt (clientDate log) (new_Date (Some now))"
  shows "settled log (moodLogs s')"
proof -
  from push_moodLog_applied [OF assms(1)] obtain existing where
    "findFirst (id_is (c_id log)) (moodLogs s) = Some existing" by blast
  with assms show ?thesis
    by (auto simp add: push_moodLog_def update_moodLog_def settled_def findFirst_update_same
          serverDate_def pick_def split: if_splits)
qed

lemma push_moodLog_keeps_settled:
  assumes "settled c (moodLogs s)"
      and "push_moodLog tenant user now log s = Inr s'"
      and "\<not> date_gt (clientDate c) (new_Date (Some now))"
  shows "settled c (moodLogs s')"
proof -
  from push_moodLog_applied [OF assms(2)] obtain existing where
    found: "findFirst (id_is (c_id log)) (moodLogs s) = Some existing" by blast
  show ?thesis
  proof (cases "c_id c = c_id log")
    case True
    with found assms show ?thesis
      by (auto simp add: push_moodLog_def update_moodLog_def settled_def findFirst_update_same
            serverDate_def pick_def split: if_splits)
  next
    case False
    with found assms show ?thesis
      by (auto simp add: push_moodLog_def update_moodLog_def settled_def findFirst_update_other
            split: if_splits)
  qed
qed

lemma for_each_moodLog_noop:
  assumes "\<forall>c \<in> set logs. settled c (moodLogs s)"
  shows "for_each (push_moodLog tenant user now) logs s = Inr s"
  using assms
  by (induction logs) (simp_all add: settled_def push_moodLog_def split: option.splits)

lemma for_each_moodLog_settles:
  assumes "for_each (push_moodLog tenant user now) logs s = Inr s'"
      and "\<forall>c \<in> set logs. \<not> date_gt (clientDate c) (new_Date (Some now))"
      and "\<forall>c \<in> set pre. settled c (moodLogs s)
             \<and> \<not> date_gt (clientDate c) (new_Date (Some now))"
  shows "\<forall>c \<in> set pre \<union> set logs. settled c (moodLogs s')"
  using assms
proof (induction logs arbitrary: s pre)
  case Nil
  then show ?case by simp
next
  case (Cons log logs)
  from Cons.prems(1) obtain s1 where
    s1: "push_moodLog tenant user now log s = Inr s1"
    and rest: "for_each (push_moodLog tenant user now) logs s1 = Inr s'"
    by (auto split: sum.splits)
  have "\<forall>c \<in> set (pre @ [log]). settled c (moodLogs s1)
          \<and> \<not> date_gt (clientDate c) (new_Date (Some now))"
    using Cons.prems(2,3) push_moodLog_settles [OF s1] push_moodLog_keeps_settled [OF _ s1]
    by auto
  from Cons.IH [OF rest _ this] Cons.prems(2) show ?case
    by auto
qed

text \<open>
  The loop, run again on the store it left, after changes \<open>pre\<close> that are settled
  there.
\<close>

lemma for_each_moodLog_again:
  assumes "\<forall>c \<in> set logs. \<not> date_gt (clientDate c) (new_Date (Some now))"
      and "\<forall>c \<in> set pre. settled c (moodLogs s)
             \<and> \<not> date_gt (clientDate c) (new_Date (Some now))"
  shows "for_each (push_moodLog tenant user now') (pre @ logs)
           (store_after (for_each (push_moodLog tenant user now) logs s))
         = for_each (push_moodLog tenant user now) logs s"
  using assms
proof (induction logs arbitrary: s pre)
  case Nil
  then show ?case
    by (simp add: for_each_moodLog_noop)
next
  case (Cons log logs)
  show ?case
  proof (cases "push_moodLog tenant user now log s")
    case (Inl err)
    obtain e s' where err: "err = (e, s')" by (cases err)
    from push_moodLog_throws_again [of tenant user now log s e s' now'] Inl err
    have "s' = s" and "push_moodLog tenant user now' log s = Inl (e, s)" by simp_all
    moreover have "for_each (push_moodLog tenant user now') pre s = Inr s"
      using Cons.prems(2) by (simp add: for_each_moodLog_noop)
    ultimately show ?thesis
      using Inl err by (simp add: for_each_append)
  next
    case (Inr s1)
    have "\<forall>c \<in> set (pre @ [log]). settled c (moodLogs s1)
            \<and> \<not> date_gt (clientDate c) (new_Date (Some now))"
      using Cons.prems push_moodLog_settles [OF Inr] push_moodLog_keeps_settled [OF _ Inr]
      by auto
    with Cons.IH [of "pre @ [log]" s1] Cons.prems(1) Inr show ?thesis
      by simp
  qed
qed

text \<open>
  An update that is applied and does not throw keeps the id and both creation dates of
  the row, and sets its tenant and user to the caller's.
\<close>

lemma push_moodLog_update_keeps:
  assumes "findFirst (id_is (c_id log)) (moodLogs s) = Some existing"
      and "date_gt (clientDate log) (serverDate existing)"
      and "push_moodLog tenant user now log s = Inr s'"
  shows "\<exists>r. findFirst (id_is (c_id log)) (moodLogs s') = Some r
           \<and> row_id r = row_id existing
           \<and> clientCreatedAt r = clientCreatedAt existing
           \<and> createdAt r = createdAt existing
           \<and> tenantId r = tenant \<and> userId r = user"
  using assms findFirst_id_Some [OF assms(1)]
  by (auto simp add: push_moodLog_def update_moodLog_def findFirst_update_same pick_def
        split: if_splits)

text \<open>The push of one change to \<^verbatim>\<open>journalEntries\<close>.\<close>

lemma set_journalEntry_envelope [simp]:
  "row_id (set_journalEntry v r) = c_id v"
  "tenantId (set_journalEntry v r) = pick (c_tenantId v) (tenantId r)"
  "userId (set_journalEntry v r) = pick (c_userId v) (userId r)"
  "clientCreatedAt (set_journalEntry v r)
     = pick (map_option instant (c_clientCreatedAt v)) (clientCreatedAt r)"
  "createdAt (set_journalEntry v r) = pick (map_option instant (c_createdAt v)) (createdAt r)"
  "updatedAt (set_journalEntry v r) = pick (map_option instant (c_updatedAt v)) (updatedAt r)"
  by (simp_all add: set_journalEntry_def set_envelope_def)

lemma push_journalEntry_stale:
  assumes "findFirst (id_is (c_id log)) (journalEntries s) = Some existing"
      and "\<not> date_gt (clientDate log) (serverDate existing)"
  shows "push_journalEntry tenant user now log s = Inr s"
  using assms by (simp add: push_journalEntry_def)

text \<open>No insert of the push succeeds: a change with no row throws.\<close>

lemma push_journalEntry_new_throws:
  assumes "findFirst (id_is (c_id log)) (journalEntries s) = None"
  shows "\<exists>e. push_journalEntry tenant user now log s = Inl (e, s)"
  using assms
  by (cases "c_clientCreatedAt log")
     (simp_all add: push_journalEntry_def insert_journalEntry_def spread_def split: option.splits)

lemma push_journalEntry_applied:
  assumes "push_journalEntry tenant user now log s = Inr s'"
  shows "(\<exists>existing. findFirst (id_is (c_id log)) (journalEntries s) = Some existing)"
  using assms push_journalEntry_new_throws [of log s tenant user now]
  by (cases "findFirst (id_is (c_id log)) (journalEntries s)") auto

text \<open>What a change throws does not depend on the clock, and leaves the store.\<close>

lemma push_journalEntry_throws_again:
  assumes "push_journalEntry tenant user now log s = Inl (e, s')"
  shows "s' = s \<and> push_journalEntry tenant user now' log s = Inl (e, s)"
  using assms
  by (auto simp add: push_journalEntry_def insert_journalEntry_def update_journalEntry_def spread_def
        split: option.splits if_splits sum.splits)

lemma push_journalEntry_frame:
  "moodLogs (store_after (push_journalEntry tenant user now log s)) = moodLogs s
   \<and> checkIns (store_after (push_journalEntry tenant user now log s)) = checkIns s"
  by (auto simp add: push_journalEntry_def store_after_def split: option.splits if_splits sum.splits)

lemma for_each_journalEntry_frame:
  "moodLogs (store_after (for_each (push_journalEntry tenant user now) logs s)) = moodLogs s
   \<and> checkIns (store_after (for_each (push_journalEntry tenant user now) logs s)) = checkIns s"
proof (induction logs arbitrary: s)
  case Nil
  then show ?case by simp
next
  case (Cons log logs)
  show ?case
  proof (cases "push_journalEntry tenant user now log s")
    case (Inl err)
    with push_journalEntry_frame [of tenant user now log s] show ?thesis
      by simp
  next
    case (Inr s1)
    with push_journalEntry_frame [of tenant user now log s] Cons.IH [of s1] show ?thesis
      by simp
  qed
qed

lemma push_journalEntry_settles:
  assumes "push_journalEntry tenant user now log s = Inr s'"
      and "\<not> date_gt (clientDate log) (new_Date (Some now))"
  shows "settled log (journalEntries s')"
proof -
  from push_journalEntry_applied [OF assms(1)] obtain existing where
    "findFirst (id_is (c_id log)) (journalEntries s) = Some existing" by blast
  with assms show ?thesis
    by (auto simp add: push_journalEntry_def update_journalEntry_def settled_def findFirst_update_same
          serverDate_def pick_def split: if_splits)
qed

lemma push_journalEntry_keeps_settled:
  assumes "settled c (journalEntries s)"
      and "push_journalEntry tenant user now log s = Inr s'"
      and "\<not> date_gt (clientDate c) (new_Date (Some now))"
  shows "settled c (journalEntries s')"
proof -
  from push_journalEntry_applied [OF assms(2)] obtain existing where
    found: "findFirst (id_is (c_id log)) (journalEntries s) = Some existing" by blast
  show ?thesis
  proof (cases "c_id c = c_id log")
    case True
    with found assms show ?thesis
      by (auto simp add: push_journalEntry_def update_journalEntry_def settled_def findFirst_update_same
            serverDate_def pick_def split: if_splits)
  next
    case False
    with found assms show ?thesis
      by (auto simp add: push_journalEntry_def update_journalEntry_def settled_def findFirst_update_other
            split: if_splits)
  qed
qed

lemma for_each_journalEntry_noop:
  assumes "\<forall>c \<in> set logs. settled c (journalEntries s)"
  shows "for_each (push_journalEntry tenant user now) logs s = Inr s"
  using assms
  by (induction logs) (simp_all add: settled_def push_journalEntry_def split: option.splits)

lemma for_each_journalEntry_settles:
  assumes "for_each (push_journalEntry tenant user now) logs s = Inr s'"
      and "\<forall>c \<in> set logs. \<not> date_gt (clientDate c) (new_Date (Some now))"
      and "\<forall>c \<in> set pre. settled c (journalEntries s)
             \<and> \<not> date_gt (clientDate c) (new_Date (Some now))"
  shows "\<forall>c \<in> set pre \<union> set logs. settled c (journalEntries s')"
  using assms
proof (induction logs arbitrary: s pre)
  case Nil
  then show ?case by simp
next
  case (Cons log logs)
  from Cons.prems(1) obtain s1 where
    s1: "push_journalEntry tenant user now log s = Inr s1"
    and rest: "for_each (push_journalEntry tenant user now) logs s1 = Inr s'"
    by (auto split: sum.splits)
  have "\<forall>c \<in> set (pre @ [log]). settled c (journalEntries s1)
          \<and> \<not> date_gt (clientDate c) (new_Date (Some now))"
    using Cons.prems(2,3) push_journalEntry_settles [OF s1] push_journalEntry_keeps_settled [OF _ s1]
    by auto
  from Cons.IH [OF rest _ this] Cons.prems(2) show ?case
    by auto
qed

text \<open>
  The loop, run again on the store it left, after changes \<open>pre\<close> that are settled
  there.
\<close>

lemma for_each_journalEntry_again:
  assumes "\<forall>c \<in> set logs. \<not> date_gt (clientDate c) (new_Date (Some now))"
      and "\<forall>c \<in> set pre. settled c (journalEntries s)
             \<and> \<not> date_gt (clientDate c) (new_Date (Some now))"
  shows "for_each (push_journalEntry tenant user now') (pre @ logs)
           (store_after (for_each (push_journalEntry tenant user now) logs s))
         = for_each (push_journalEntry tenant user now) logs s"
  using assms
proof (induction logs arbitrary: s pre)
  case Nil
  then show ?case
    by (simp add: for_each_journalEntry_noop)
next
  case (Cons log logs)
  show ?case
  proof (cases "push_journalEntry tenant user now log s")
    case (Inl err)
    obtain e s' where err: "err = (e, s')" by (cases err)
    from push_journalEntry_throws_again [of tenant user now log s e s' now'] Inl err
    have "s' = s" and "push_journalEntry tenant user now' log s = Inl (e, s)" by simp_all
    moreover have "for_each (push_journalEntry tenant user now') pre s = Inr s"
      using Cons.prems(2) by (simp add: for_each_journalEntry_noop)
    ultimately show ?thesis
      using Inl err by (simp add: for_each_append)
  next
    case (Inr s1)
    have "\<forall>c \<in> set (pre @ [log]). settled c (journalEntries s1)
            \<and> \<not> date_gt (clientDate c) (new_Date (Some now))"
      using Cons.prems push_journalEntry_settles [OF Inr] push_journalEntry_keeps_settled [OF _ Inr]
      by auto
    with Cons.IH [of "pre @ [log]" s1] Cons.prems(1) Inr show ?thesis
      by simp
  qed
qed

text \<open>
  An update that is applied and does not throw keeps the id and both creation dates of
  the row, and sets its tenant and user to the caller's.
\<close>

lemma push_journalEntry_update_keeps:
  assumes "findFirst (id_is (c_id log)) (journalEntries s) = Some existing"
      and "date_gt (clientDate log) (serverDate existing)"
      and "push_journalEntry tenant user now log s = Inr s'"
  shows "\<exists>r. findFirst (id_is (c_id log)) (journalEntries s') = Some r
           \<and> row_id r = row_id existing
           \<and> clientCreatedAt r = clientCreatedAt existing
           \<and> createdAt r = createdAt existing
           \<and> tenantId r = tenant \<and> userId r = user"
  using assms findFirst_id_Some [OF assms(1)]
  by (auto simp add: push_journalEntry_def update_journalEntry_def findFirst_update_same pick_def
        split: if_splits)

text \<open>The push of one change to \<^verbatim>\<open>checkIns\<close>.\<close>

lemma set_checkIn_envelope [simp]:
  "row_id (set_checkIn v r) = c_id v"
  "tenantId (set_checkIn v r) = pick (c_tenantId v) (tenantId r)"
  "userId (set_checkIn v r) = pick (c_userId v) (userId r)"
  "clientCreatedAt (set_checkIn v r)
     = pick (map_option instant (c_clientCreatedAt v)) (clientCreatedAt r)"
  "createdAt (set_checkIn v r) = pick (map_option instant (c_createdAt v)) (createdAt r)"
  "updatedAt (set_checkIn v r) = pick (map_option instant (c_updatedAt v)) (updatedAt r)"
  by (simp_all add: set_checkIn_def set_envelope_def)

lemma push_checkIn_stale:
  assumes "findFirst (id_is (c_id log)) (checkIns s) = Some existing"
      and "\<not> date_gt (clientDate log) (serverDate existing)"
  shows "push_checkIn tenant user now log s = Inr s"
  using assms by (simp add: push_checkIn_def)

text \<open>No insert of the push succeeds: a change with no row throws.\<close>

lemma push_checkIn_new_throws:
  assumes "findFirst (id_is (c_id log)) (checkIns s) = None"
  shows "\<exists>e. push_checkIn tenant user now log s = Inl (e, s)"
  using assms
  by (cases "c_clientCreatedAt log")
     (simp_all add: push_checkIn_def insert_checkIn_def spread_def split: option.splits)

lemma push_checkIn_applied:
  assumes "push_checkIn tenant user now log s = Inr s'"
  shows "(\<exists>existing. findFirst (id_is (c_id log)) (checkIns s) = Some existing)"
  using assms push_checkIn_new_throws [of log s tenant user now]
  by (cases "findFirst (id_is (c_id log)) (checkIns s)") auto

text \<open>What a change throws does not depend on the clock, and leaves the store.\<close>

lemma push_checkIn_throws_again:
  assumes "push_checkIn tenant user now log s = Inl (e, s')"
  shows "s' = s \<and> push_checkIn tenant user now' log s = Inl (e, s)"
  using assms
  by (auto simp add: push_checkIn_def insert_checkIn_def update_checkIn_def spread_def
        split: option.splits if_splits sum.splits)

lemma push_checkIn_frame:
  "moodLogs (store_after (push_checkIn tenant user now log s)) = moodLogs s
   \<and> journalEntries (store_after (push_checkIn tenant user now log s)) = journalEntries s"
  by (auto simp add: push_checkIn_def store_after_def split: option.splits if_splits sum.splits)

lemma for_each_checkIn_frame:
  "moodLogs (store_after (for_each (push_checkIn tenant user now) logs s)) = moodLogs s
   \<and> journalEntries (store_after (for_each (push_checkIn tenant user now) logs s)) = journalEntries s"
proof (induction logs arbitrary: s)
  case Nil
  then show ?case by simp
next
  case (Cons log logs)
  show ?case
  proof (cases "push_checkIn tenant user now log s")
    case (Inl err)
    with push_checkIn_frame [of tenant user now log s] show ?thesis
      by simp
  next
    case (Inr s1)
    with push_checkIn_frame [of tenant user now log s] Cons.IH [of s1] show ?thesis
      by simp
  qed
qed

lemma push_checkIn_settles:
  assumes "push_checkIn tenant user now log s = Inr s'"
      and "\<not> date_gt (clientDate log) (new_Date (Some now))"
  shows "settled log (checkIns s')"
proof -
  from push_checkIn_applied [OF assms(1)] obtain existing where
    "findFirst (id_is (c_id log)) (checkIns s) = Some existing" by blast
  with assms show ?thesis
    by (auto simp add: push_checkIn_def update_checkIn_def settled_def findFirst_update_same
          serverDate_def pick_def split: if_splits)
qed

lemma push_checkIn_keeps_settled:
  assumes "settled c (checkIns s)"
      and "push_checkIn tenant user now log s = Inr s'"
      and "\<not> date_gt (clientDate c) (new_Date (Some now))"
  shows "settled c (checkIns s')"
proof -
  from push_checkIn_applied [OF assms(2)] obtain existing where
    found: "findFirst (id_is (c_id log)) (checkIns s) = Some existing" by blast
  show ?thesis
  proof (cases "c_id c = c_id log")
    case True
    with found assms show ?thesis
      by (auto simp add: push_checkIn_def update_checkIn_def settled_def findFirst_update_same
            serverDate_def pick_def split: if_splits)
  next
    case False
    with found assms show ?thesis
      by (auto simp add: push_checkIn_def update_checkIn_def settled_def findFirst_update_other
            split: if_splits)
  qed
qed

lemma for_each_checkIn_noop:
  assumes "\<forall>c \<in> set logs. settled c (checkIns s)"
  shows "for_each (push_checkIn tenant user now) logs s = Inr s"
  using assms
  by (induction logs) (simp_all add: settled_def push_checkIn_def split: option.splits)

lemma for_each_checkIn_settles:
  assumes "for_each (push_checkIn tenant user now) logs s = Inr s'"
      and "\<forall>c \<in> set logs. \<not> date_gt (clientDate c) (new_Date (Some now))"
      and "\<forall>c \<in> set pre. settled c (checkIns s)
             \<and> \<not> date_gt (clientDate c) (new_Date (Some now))"
  shows "\<forall>c \<in> set pre \<union> set logs. settled c (checkIns s')"
  using assms
proof (induction logs arbitrary: s pre)
  case Nil
  then show ?case by simp
next
  case (Cons log logs)
  from Cons.prems(1) obtain s1 where
    s1: "push_checkIn tenant user now log s = Inr s1"
    and rest: "for_each (push_checkIn tenant user now) logs s1 = Inr s'"
    by (auto split: sum.splits)
  have "\<forall>c \<in> set (pre @ [log]). settled c (checkIns s1)
          \<and> \<not> date_gt (clientDate c) (new_Date (Some now))"
    using Cons.prems(2,3) push_checkIn_settles [OF s1] push_checkIn_keeps_settled [OF _ s1]
    by auto
  from Cons.IH [OF rest _ this] Cons.prems(2) show ?case
    by auto
qed

text \<open>
  The loop, run again on the store it left, after changes \<open>pre\<close> that are settled
  there.
\<close>

lemma for_each_checkIn_again:
  assumes "\<forall>c \<in> set logs. \<not> date_gt (clientDate c) (new_Date (Some now))"
      and "\<forall>c \<in> set pre. settled c (checkIns s)
             \<and> \<not> date_gt (clientDate c) (new_Date (Some now))"
  shows "for_each (push_checkIn tenant user now') (pre @ logs)
           (store_after (for_each (push_checkIn tenant user now) logs s))
         = for_each (push_checkIn tenant user now) logs s"
  using assms
proof (induction logs arbitrary: s pre)
  case Nil
  then show ?case
    by (simp add: for_each_checkIn_noop)
next
  case (Cons log logs)
  show ?case
  proof (cases "push_checkIn tenant user now log s")
    case (Inl err)
    obtain e s' where err: "err = (e, s')" by (cases err)
    from push_checkIn_throws_again [of tenant user now log s e s' now'] Inl err
    have "s' = s" and "push_checkIn tenant user now' log s = Inl (e, s)" by simp_all
    moreover have "for_each (push_checkIn tenant user now') pre s = Inr s"
      using Cons.prems(2) by (simp add: for_each_checkIn_noop)
    ultimately show ?thesis
      using Inl err by (simp add: for_each_append)
  next
    case (Inr s1)
    have "\<forall>c \<in> set (pre @ [log]). settled c (checkIns s1)
            \<and> \<not> date_gt (clientDate c) (new_Date (Some now))"
      using Cons.prems push_checkIn_settles [OF Inr] push_checkIn_keeps_settled [OF _ Inr]
      by auto
    with Cons.IH [of "pre @ [log]" s1] Cons.prems(1) Inr show ?thesis
      by simp
  qed
qed

text \<open>
  An update that is applied and does not throw keeps the id and both creation dates of
  the row, and sets its tenant and user to the caller's.
\<close>

lemma push_checkIn_update_keeps:
  assumes "findFirst (id_is (c_id log)) (checkIns s) = Some existing"
      and "date_gt (clientDate log) (serverDate existing)"
      and "push_checkIn tenant user now log s = Inr s'"
  shows "\<exists>r. findFirst (id_is (c_id log)) (checkIns s') = Some r
           \<and> row_id r = row_id existing
           \<and> clientCreatedAt r = clientCreatedAt existing
           \<and> createdAt r = createdAt existing
           \<and> tenantId r = tenant \<and> userId r = user"
  using assms findFirst_id_Some [OF assms(1)]
  by (auto simp add: push_checkIn_def update_checkIn_def findFirst_update_same pick_def
        split: if_splits)

subsection \<open>Tenant scope of the identity lookup\<close>

text \<open>
  Claim C1. A change whose id is the id of a row of another tenant should be looked up
  within the caller's tenant, found absent and inserted as a row of its own, leaving the
  other tenant's row as it was. The lookup of the push is \<^verbatim>\<open>eq(moodLogs.id, log.id)\<close>
  alone: it finds the row \<open>M\<close> of tenant \<open>T1\<close>, and a push of tenant \<open>T2\<close> that
  carries a later date rewrites that row and moves it to \<open>T2\<close>. No second row appears.
\<close>

theorem cross_tenant_push_rewrites_row:
  "push_moodLog ''T2'' ''U2'' 500
     ((no_fields ''M'')\<lparr>c_mood := Some ''terrible'', c_updatedAt := Some 9999\<rparr>)
     (empty_store\<lparr>moodLogs := [row_M]\<rparr>)
   = Inr (empty_store\<lparr>moodLogs :=
       [\<lparr>row_id = ''M'', tenantId = ''T2'', userId = ''U2'', clientCreatedAt = 10,
         createdAt = 20, updatedAt = 500, syncedAt = Some 500, isDeleted = False,
         mood = ''terrible'', intensity = None, log_notes = None\<rparr>]\<rparr>)"
  by (simp add: eval_defs)

subsection \<open>Global resources in the pull\<close>

text \<open>
  Claim C2. A published resource with no tenant, updated after the cutoff, should be in
  \<^verbatim>\<open>serverChanges.resources\<close> of every tenant's pull. The query selects global
  resources with \<^verbatim>\<open>eq(resources.tenantId, null)\<close>, a comparison with \<^verbatim>\<open>NULL\<close> that is
  never true (the resources route uses \<^verbatim>\<open>isNull\<close>), so the bootstrap pull of tenant
  \<open>T1\<close> over a store that holds the global resource \<open>R\<close> returns no resource.
\<close>

theorem global_resource_not_pulled:
  "sc_resources (pull ''T1'' ''U1'' None (empty_store\<lparr>resources := [resource_R]\<rparr>)) = []"
  by (simp add: pull_def empty_store_def resource_R_def findMany_def resources_since_def
        holds_def sql_and_def sql_or_def sql_eq_def sql_gt_def syncCutoffDate_def)

text \<open>The same for every tenant, cutoff and global resource.\<close>

lemma global_resource_never_selected:
  "res_tenantId r = None \<Longrightarrow> \<not> holds (resources_since tenant cutoff r)"
  by (cases "isPublished r"; cases "cutoff < res_updatedAt r")
     (simp_all add: resources_since_def holds_def sql_and_def sql_or_def sql_eq_def sql_gt_def)

text \<open>With \<^verbatim>\<open>isNull\<close> in its place the condition selects it.\<close>

lemma isNull_selects_global_resource:
  "holds (sql_and [sql_or [sql_eq (res_tenantId resource_R) (Some tenant),
                           isNull (res_tenantId resource_R)],
                   sql_eq (Some (isPublished resource_R)) (Some True),
                   sql_gt (Some (res_updatedAt resource_R)) (Some 0)])"
  by (simp add: resource_R_def holds_def sql_and_def sql_or_def sql_eq_def sql_gt_def
        isNull_def)

subsection \<open>Last write wins\<close>

text \<open>
  Claim C3. When the id of a pushed change is the id of a stored row and the change's
  client date (\<^verbatim>\<open>updatedAt\<close> if present, else \<^verbatim>\<open>clientCreatedAt\<close>) is not strictly later
  than the row's \<^verbatim>\<open>updatedAt\<close>, the push leaves the whole store as it is and reports
  nothing. This holds in each of the three pushed tables.
\<close>

theorem stale_change_discarded:
  "(findFirst (id_is (c_id log)) (moodLogs s) = Some existing_log
      \<and> \<not> date_gt (clientDate log) (serverDate existing_log)
    \<longrightarrow> push_moodLog tenant user now log s = Inr s)
   \<and> (findFirst (id_is (c_id entry)) (journalEntries s) = Some existing_entry
      \<and> \<not> date_gt (clientDate entry) (serverDate existing_entry)
    \<longrightarrow> push_journalEntry tenant user now entry s = Inr s)
   \<and> (findFirst (id_is (c_id checkIn)) (checkIns s) = Some existing_checkIn
      \<and> \<not> date_gt (clientDate checkIn) (serverDate existing_checkIn)
    \<longrightarrow> push_checkIn tenant user now checkIn s = Inr s)"
  by (simp add: push_moodLog_stale push_journalEntry_stale push_checkIn_stale)

text \<open>
  Over the store with the rows \<open>M\<close>, \<open>J\<close> and \<open>C\<close> (all updated at 100): a mood log
  dated 90, a journal entry dated 100 and a check-in with no date at all.
\<close>

theorem stale_change_discarded_witness:
  "findFirst (id_is ''M'') (moodLogs store_MJC) = Some row_M
   \<and> \<not> date_gt (clientDate ((no_fields ''M'')\<lparr>c_mood := Some ''bad'', c_updatedAt := Some 90\<rparr>))
          (serverDate row_M)
   \<and> push_moodLog ''T1'' ''U1'' 500
        ((no_fields ''M'')\<lparr>c_mood := Some ''bad'', c_updatedAt := Some 90\<rparr>) store_MJC
      = Inr store_MJC
   \<and> findFirst (id_is ''J'') (journalEntries store_MJC) = Some row_J
   \<and> \<not> date_gt (clientDate ((no_fields ''J'')\<lparr>c_content := Some ''storm'',
            c_updatedAt := Some 100\<rparr>)) (serverDate row_J)
   \<and> push_journalEntry ''T1'' ''U1'' 500
        ((no_fields ''J'')\<lparr>c_content := Some ''storm'', c_updatedAt := Some 100\<rparr>) store_MJC
      = Inr store_MJC
   \<and> findFirst (id_is ''C'') (checkIns store_MJC) = Some row_C
   \<and> \<not> date_gt (clientDate ((no_fields ''C'')\<lparr>c_completedAt := Some 450\<rparr>)) (serverDate row_C)
   \<and> push_checkIn ''T1'' ''U1'' 500 ((no_fields ''C'')\<lparr>c_completedAt := Some 450\<rparr>) store_MJC
      = Inr store_MJC"
proof -
  let ?log = "(no_fields ''M'')\<lparr>c_mood := Some ''bad'', c_updatedAt := Some 90\<rparr>"
  let ?entry = "(no_fields ''J'')\<lparr>c_content := Some ''storm'', c_updatedAt := Some 100\<rparr>"
  let ?checkIn = "(no_fields ''C'')\<lparr>c_completedAt := Some 450\<rparr>"
  have m: "findFirst (id_is (c_id ?log)) (moodLogs store_MJC) = Some row_M
           \<and> \<not> date_gt (clientDate ?log) (serverDate row_M)"
    by (simp add: example_defs date_defs)
  have j: "findFirst (id_is (c_id ?entry)) (journalEntries store_MJC) = Some row_J
           \<and> \<not> date_gt (clientDate ?entry) (serverDate row_J)"
    by (simp add: example_defs date_defs)
  have c: "findFirst (id_is (c_id ?checkIn)) (checkIns store_MJC) = Some row_C
           \<and> \<not> date_gt (clientDate ?checkIn) (serverDate row_C)"
    by (simp add: example_defs date_defs)
  have ids: "c_id ?log = ''M''" "c_id ?entry = ''J''" "c_id ?checkIn = ''C''"
    by (simp_all add: no_fields_def)
  from m j c
    stale_change_discarded [where log = ?log and entry = ?entry and checkIn = ?checkIn
      and s = store_MJC and existing_log = row_M and existing_entry = row_J
      and existing_checkIn = row_C and tenant = "''T1''" and user = "''U1''" and now = 500]
  show ?thesis
    unfolding ids by blast
qed

subsection \<open>No transaction\<close>

text \<open>
  Claim C4. A sync call in which a store operation fails should persist nothing. The
  handler runs its statements one after the other with no transaction around them: in a
  batch that updates the mood log \<open>M\<close> and then pushes a new mood log \<open>B\<close> without
  \<^verbatim>\<open>clientCreatedAt\<close>, the insert of \<open>B\<close> is rejected by the database, the call ends in
  the error, and the update of \<open>M\<close> stays.
\<close>

theorem failed_sync_keeps_earlier_update:
  "sync_post (empty_store\<lparr>moodLogs := [row_M]\<rparr>) crew_T1 500
     \<lparr>deviceId = ''D'', lastSyncAt = None,
      changes = \<lparr>ch_moodLogs = Some
        [(no_fields ''M'')\<lparr>c_mood := Some ''bad'', c_updatedAt := Some 400\<rparr>,
         (no_fields ''B'')\<lparr>c_mood := Some ''good''\<rparr>],
        ch_journalEntries = None, ch_checkIns = None\<rparr>\<rparr>
   = Inl (NotNullViolation ''client_created_at'',
          empty_store\<lparr>moodLogs :=
            [\<lparr>row_id = ''M'', tenantId = ''T1'', userId = ''U1'', clientCreatedAt = 10,
              createdAt = 20, updatedAt = 500, syncedAt = Some 500, isDeleted = False,
              mood = ''bad'', intensity = None, log_notes = None\<rparr>]\<rparr>)"
  by (simp add: sync_post_def push_def push_all_def eval_defs)

subsection \<open>The first push of a change\<close>

text \<open>
  Claim C5. A change pushed for the first time should be inserted, and the row should
  have \<^verbatim>\<open>createdAt\<close>, \<^verbatim>\<open>updatedAt\<close> and \<^verbatim>\<open>syncedAt\<close> equal to the server's now. The
  insert spreads the change into \<^verbatim>\<open>.values(...)\<close> with its \<^verbatim>\<open>clientCreatedAt\<close> still a
  string, where the other routes write \<^verbatim>\<open>new Date(clientCreatedAt)\<close>: building the
  statement throws. The first push of the mood log \<open>M\<close> with the mood \<^verbatim>\<open>good\<close>, created
  on the device at 10, ends in the error and stores no row.
\<close>

theorem first_push_stores_no_row:
  "sync_post empty_store crew_T1 500
     \<lparr>deviceId = ''D'', lastSyncAt = None,
      changes = \<lparr>ch_moodLogs = Some
        [(no_fields ''M'')\<lparr>c_mood := Some ''good'', c_clientCreatedAt := Some 10\<rparr>],
        ch_journalEntries = None, ch_checkIns = None\<rparr>\<rparr>
   = Inl (TypeError ''value.toISOString is not a function'', empty_store)"
  by (simp add: sync_post_def push_def push_all_def eval_defs)

subsection \<open>Review fields of a check-in\<close>

text \<open>
  Claim C6. When the caller is not a psychologist, a pushed check-in should leave
  \<^verbatim>\<open>needsAttention\<close>, \<^verbatim>\<open>reviewedBy\<close>, \<^verbatim>\<open>reviewedAt\<close> and \<^verbatim>\<open>reviewNotes\<close> as they are
  and apply its other fields. The push spreads the whole payload into \<^verbatim>\<open>.set(...)\<close> and
  never reads the role (the review route is guarded by
  \<^verbatim>\<open>requireRole('psychologist')\<close>): a crew member's update of the check-in \<open>C\<close> that
  carries \<^verbatim>\<open>needsAttention\<close>, \<^verbatim>\<open>reviewedBy\<close> and \<^verbatim>\<open>reviewNotes\<close> stores the three.
\<close>

theorem crew_update_persists_review_fields:
  "map_sum fst (\<lambda>(response, s'). checkIns s')
     (sync_post store_MJC crew_T1 500
       \<lparr>deviceId = ''D'', lastSyncAt = None,
        changes = \<lparr>ch_moodLogs = None, ch_journalEntries = None,
          ch_checkIns = Some
            [(no_fields ''C'')\<lparr>c_mood := Some ''okay'', c_needsAttention := Some True,
               c_reviewedBy := Some ''U1'', c_reviewNotes := Some ''all fine'',
               c_updatedAt := Some 400\<rparr>]\<rparr>\<rparr>)
   = Inr [\<lparr>row_id = ''C'', tenantId = ''T1'', userId = ''U1'', clientCreatedAt = 10,
           createdAt = 20, updatedAt = 500, syncedAt = Some 500, isDeleted = False,
           scheduledFor = 50, completedAt = None, checkin_mood = Some ''okay'',
           responses = None, needsAttention = True, reviewedBy = Some ''U1'',
           reviewedAt = None, reviewNotes = Some ''all fine''\<rparr>]"
  by (simp add: sync_post_def Let_def push_def push_all_def update_sync_metadata_def eval_defs)

text \<open>The role has no part in the handler.\<close>

lemma sync_post_ignores_role:
  "sync_post s (req\<lparr>userRole := r\<rparr>) now body = sync_post s req now body"
  by (simp add: sync_post_def)

subsection \<open>Changes that are not valid\<close>




subsection \<open>Pushing the same changes again\<close>

text \<open>
  Claim C8, as stated: applying a push twice leaves the store as applying it once. The
  update compares the client date with the row's \<^verbatim>\<open>updatedAt\<close>, which the update
  itself sets to the server's now. A change dated 9999, later than the server's clock,
  wins at 500 and wins again at 600: the retry stamps the row once more, and the store
  after the second push is not the store after the first.
\<close>

theorem retried_push_restamps_row:
  "push_moodLog ''T1'' ''U1'' 500
     ((no_fields ''M'')\<lparr>c_mood := Some ''bad'', c_updatedAt := Some 9999\<rparr>)
     (empty_store\<lparr>moodLogs := [row_M]\<rparr>)
   = Inr (empty_store\<lparr>moodLogs :=
       [row_M\<lparr>mood := ''bad'', updatedAt := 500, syncedAt := Some 500\<rparr>]\<rparr>)
   \<and> push_moodLog ''T1'' ''U1'' 600
     ((no_fields ''M'')\<lparr>c_mood := Some ''bad'', c_updatedAt := Some 9999\<rparr>)
     (empty_store\<lparr>moodLogs :=
       [row_M\<lparr>mood := ''bad'', updatedAt := 500, syncedAt := Some 500\<rparr>]\<rparr>)
   = Inr (empty_store\<lparr>moodLogs :=
       [row_M\<lparr>mood := ''bad'', updatedAt := 600, syncedAt := Some 600\<rparr>]\<rparr>)
   \<and> empty_store\<lparr>moodLogs := [row_M\<lparr>mood := ''bad'', updatedAt := 600, syncedAt := Some 600\<rparr>]\<rparr>
     \<noteq> empty_store\<lparr>moodLogs := [row_M\<lparr>mood := ''bad'', updatedAt := 500, syncedAt := Some 500\<rparr>]\<rparr>"
  by (simp add: eval_defs)

text \<open>
  Claim C8, amended: when no change of a push (the three arrays of changes, in order)
  has a client date later than the server time \<open>now1\<close> at which the push is applied,
  the same push applied again, at any server time, to the store the first application
  left returns what the first application returned, the same error if it threw, and
  leaves that store exactly as it is.
\<close>

theorem repeated_push_same_result:
  assumes "\<forall>c \<in> set (pushed (ch_moodLogs ch) @ pushed (ch_journalEntries ch)
                      @ pushed (ch_checkIns ch)).
             \<not> date_gt (clientDate c) (new_Date (Some now1))"
  shows "push tenant user now2 ch (store_after (push tenant user now1 ch s))
           = push tenant user now1 ch s
         \<and> store_after (push tenant user now2 ch (store_after (push tenant user now1 ch s)))
           = store_after (push tenant user now1 ch s)"
proof -
  let ?ms = "pushed (ch_moodLogs ch)"
  let ?js = "pushed (ch_journalEntries ch)"
  let ?cs = "pushed (ch_checkIns ch)"
  let ?M = "\<lambda>now. for_each (push_moodLog tenant user now) ?ms"
  let ?J = "\<lambda>now. for_each (push_journalEntry tenant user now) ?js"
  let ?C = "\<lambda>now. for_each (push_checkIn tenant user now) ?cs"
  from assms have dates:
    "\<forall>c \<in> set ?ms. \<not> date_gt (clientDate c) (new_Date (Some now1))"
    "\<forall>c \<in> set ?js. \<not> date_gt (clientDate c) (new_Date (Some now1))"
    "\<forall>c \<in> set ?cs. \<not> date_gt (clientDate c) (new_Date (Some now1))"
    by simp_all
  have again_M: "?M now2 (store_after (?M now1 s0)) = ?M now1 s0" for s0
    using for_each_moodLog_again [OF dates(1), of "[]" s0 tenant user now2] by simp
  have again_J: "?J now2 (store_after (?J now1 s0)) = ?J now1 s0" for s0
    using for_each_journalEntry_again [OF dates(2), of "[]" s0 tenant user now2] by simp
  have again_C: "?C now2 (store_after (?C now1 s0)) = ?C now1 s0" for s0
    using for_each_checkIn_again [OF dates(3), of "[]" s0 tenant user now2] by simp
  have same: "push tenant user now2 ch (store_after (push tenant user now1 ch s))
                = push tenant user now1 ch s"
  proof (cases "?M now1 s")
    case (Inl err)
    with again_M [of s] show ?thesis
      by (simp add: push_def push_all_for_each)
  next
    case a: (Inr sa)
    have "\<forall>c \<in> set [] \<union> set ?ms. settled c (moodLogs sa)"
      by (rule for_each_moodLog_settles [OF a dates(1)]) simp
    then have m: "\<forall>c \<in> set ?ms. settled c (moodLogs sa)"
      by simp
    show ?thesis
    proof (cases "?J now1 sa")
      case (Inl err)
      obtain e s1 where err: "err = (e, s1)" by (cases err)
      from for_each_journalEntry_frame [of tenant user now1 ?js sa] Inl err
      have "moodLogs s1 = moodLogs sa" by simp
      with m have "?M now2 s1 = Inr s1"
        by (simp add: for_each_moodLog_noop)
      moreover from again_J [of sa] Inl err have "?J now2 s1 = Inl (e, s1)"
        by simp
      ultimately show ?thesis
        using a Inl err by (simp add: push_def push_all_for_each)
    next
      case b: (Inr sb)
      have "\<forall>c \<in> set [] \<union> set ?js. settled c (journalEntries sb)"
        by (rule for_each_journalEntry_settles [OF b dates(2)]) simp
      then have j: "\<forall>c \<in> set ?js. settled c (journalEntries sb)"
        by simp
      from for_each_journalEntry_frame [of tenant user now1 ?js sa] b
      have mb: "moodLogs sb = moodLogs sa" by simp
      let ?s1 = "store_after (?C now1 sb)"
      from for_each_checkIn_frame [of tenant user now1 ?cs sb]
      have frame: "moodLogs ?s1 = moodLogs sb" "journalEntries ?s1 = journalEntries sb"
        by simp_all
      from m mb frame(1) have "?M now2 ?s1 = Inr ?s1"
        by (simp add: for_each_moodLog_noop)
      moreover from j frame(2) have "?J now2 ?s1 = Inr ?s1"
        by (simp add: for_each_journalEntry_noop)
      ultimately show ?thesis
        using a b again_C [of sb] by (simp add: push_def push_all_for_each)
    qed
  qed
  then show ?thesis
    by simp
qed

text \<open>
  Pushed at 500 and again at 600 over the store with the rows \<open>M\<close>, \<open>J\<close> and \<open>C\<close>:
  updates of the mood log \<open>M\<close> and of the journal entry \<open>J\<close>, both dated 400.
\<close>

theorem repeated_push_same_result_witness:
  "push ''T1'' ''U1'' 500
     \<lparr>ch_moodLogs = Some [(no_fields ''M'')\<lparr>c_mood := Some ''bad'', c_updatedAt := Some 400\<rparr>],
      ch_journalEntries = Some [(no_fields ''J'')\<lparr>c_content := Some ''fog'',
          c_updatedAt := Some 400\<rparr>],
      ch_checkIns = None\<rparr> store_MJC
   = Inr (store_MJC\<lparr>moodLogs := [row_M\<lparr>mood := ''bad'', updatedAt := 500, syncedAt := Some 500\<rparr>],
       journalEntries := [row_J\<lparr>content := ''fog'', updatedAt := 500, syncedAt := Some 500\<rparr>]\<rparr>)
   \<and> push ''T1'' ''U1'' 600
     \<lparr>ch_moodLogs = Some [(no_fields ''M'')\<lparr>c_mood := Some ''bad'', c_updatedAt := Some 400\<rparr>],
      ch_journalEntries = Some [(no_fields ''J'')\<lparr>c_content := Some ''fog'',
          c_updatedAt := Some 400\<rparr>],
      ch_checkIns = None\<rparr>
     (store_MJC\<lparr>moodLogs := [row_M\<lparr>mood := ''bad'', updatedAt := 500, syncedAt := Some 500\<rparr>],
       journalEntries := [row_J\<lparr>content := ''fog'', updatedAt := 500, syncedAt := Some 500\<rparr>]\<rparr>)
   = Inr (store_MJC\<lparr>moodLogs := [row_M\<lparr>mood := ''bad'', updatedAt := 500, syncedAt := Some 500\<rparr>],
       journalEntries := [row_J\<lparr>content := ''fog'', updatedAt := 500, syncedAt := Some 500\<rparr>]\<rparr>)"
proof -
  let ?ch = "\<lparr>ch_moodLogs = Some [(no_fields ''M'')\<lparr>c_mood := Some ''bad'', c_updatedAt := Some 400\<rparr>],
      ch_journalEntries = Some [(no_fields ''J'')\<lparr>c_content := Some ''fog'',
          c_updatedAt := Some 400\<rparr>],
      ch_checkIns = None\<rparr>"
  let ?s1 = "store_MJC\<lparr>moodLogs := [row_M\<lparr>mood := ''bad'', updatedAt := 500, syncedAt := Some 500\<rparr>],
       journalEntries := [row_J\<lparr>content := ''fog'', updatedAt := 500, syncedAt := Some 500\<rparr>]\<rparr>"
  have first: "push ''T1'' ''U1'' 500 ?ch store_MJC = Inr ?s1"
    by (simp add: push_def push_all_def eval_defs)
  have dates: "\<forall>c \<in> set (pushed (ch_moodLogs ?ch) @ pushed (ch_journalEntries ?ch)
                      @ pushed (ch_checkIns ?ch)).
             \<not> date_gt (clientDate c) (new_Date (Some 500))"
    by (simp add: pushed_def no_fields_def date_defs)
  from repeated_push_same_result [OF dates, of "''T1''" "''U1''" 600 store_MJC]
  have "push ''T1'' ''U1'' 600 ?ch (store_after (push ''T1'' ''U1'' 500 ?ch store_MJC))
          = push ''T1'' ''U1'' 500 ?ch store_MJC"
    by (rule conjunct1)
  with first show ?thesis
    by simp
qed

subsection \<open>Columns an update leaves alone\<close>

text \<open>
  Claim C9. An update should leave \<^verbatim>\<open>tenantId\<close>, \<^verbatim>\<open>userId\<close>, \<^verbatim>\<open>clientCreatedAt\<close>,
  \<^verbatim>\<open>createdAt\<close> and \<^verbatim>\<open>id\<close> of the row as they are. The row to update is found by
  \<^verbatim>\<open>eq(moodLogs.id, log.id)\<close> alone and the update sets \<^verbatim>\<open>tenantId\<close> and \<^verbatim>\<open>userId\<close> to
  the caller's: when user \<open>U2\<close> pushes a later change with the id of the mood log \<open>M\<close>
  of user \<open>U1\<close>, the row's \<^verbatim>\<open>userId\<close> becomes \<open>U2\<close>.
\<close>

theorem update_changes_owner:
  "push_moodLog ''T1'' ''U2'' 500
     ((no_fields ''M'')\<lparr>c_mood := Some ''bad'', c_updatedAt := Some 400\<rparr>)
     (empty_store\<lparr>moodLogs := [row_M]\<rparr>)
   = Inr (empty_store\<lparr>moodLogs :=
       [\<lparr>row_id = ''M'', tenantId = ''T1'', userId = ''U2'', clientCreatedAt = 10,
         createdAt = 20, updatedAt = 500, syncedAt = Some 500, isDeleted = False,
         mood = ''bad'', intensity = None, log_notes = None\<rparr>]\<rparr>)"
  by (simp add: eval_defs)

subsection \<open>The status route\<close>

text \<open>
  Claim C10. \<^verbatim>\<open>GET /api/sync/status\<close> without a \<^verbatim>\<open>deviceId\<close> parameter answers 400
  with \<^verbatim>\<open>success: false\<close> and the error \<^verbatim>\<open>deviceId is required\<close>; the answer is the
  same over every store, so no sync metadata row takes part in it.
\<close>

theorem status_requires_deviceId:
  "sync_status s req None =
     \<lparr>http_status = 400, st_success = False, st_error = Some ''deviceId is required'',
      st_data = None\<rparr>
   \<and> sync_status s req None = sync_status s' req None"
  by (simp add: sync_status_def)

end
